theory Spec2Isabelle
  imports Complex_Main
begin

section \<open>Parameter transforms of \<open>prospect/models/transforms.py\<close>\<close>

text \<open>
  The module is a collection of pure functions over NumPy float arrays. The embedding
  keeps the structure of the source: every transform is a HOL function of its named
  parameters and of the \<open>**extras\<close> keyword dictionary, arrays are lists, and every
  exception the source can raise is a value of \<open>py_error\<close>.

  Numbers. A float is modelled as an exact real number or one of the three non-finite
  IEEE values, so that a division by zero returns \<open>NaN\<close> or an infinity as NumPy does
  (with a warning, not an exception) instead of HOL's \<open>x / 0 = 0\<close>. Rounding, overflow
  and underflow are not modelled: finite arithmetic is exact. Signed zeros are not
  modelled either: every zero behaves as \<open>+0.0\<close>.
\<close>

subsection \<open>Floats with non-finite values\<close>

datatype npfloat = Fin real | PInf | NInf | NaN

fun fneg :: "npfloat \<Rightarrow> npfloat" where
  "fneg (Fin a) = Fin (- a)"
| "fneg PInf = NInf"
| "fneg NInf = PInf"
| "fneg NaN = NaN"

fun fadd :: "npfloat \<Rightarrow> npfloat \<Rightarrow> npfloat" where
  "fadd NaN _ = NaN"
| "fadd _ NaN = NaN"
| "fadd (Fin a) (Fin b) = Fin (a + b)"
| "fadd PInf NInf = NaN"
| "fadd NInf PInf = NaN"
| "fadd PInf _ = PInf"
| "fadd _ PInf = PInf"
| "fadd NInf _ = NInf"
| "fadd _ NInf = NInf"

definition fsub :: "npfloat \<Rightarrow> npfloat \<Rightarrow> npfloat" where
  "fsub a b = fadd a (fneg b)"

fun inf_times :: "bool \<Rightarrow> real \<Rightarrow> npfloat" where
  "inf_times pos b =
     (if b = 0 then NaN else if (0 < b) = pos then PInf else NInf)"

fun fmul :: "npfloat \<Rightarrow> npfloat \<Rightarrow> npfloat" where
  "fmul NaN _ = NaN"
| "fmul _ NaN = NaN"
| "fmul (Fin a) (Fin b) = Fin (a * b)"
| "fmul PInf (Fin b) = inf_times True b"
| "fmul NInf (Fin b) = inf_times False b"
| "fmul (Fin a) PInf = inf_times True a"
| "fmul (Fin a) NInf = inf_times False a"
| "fmul PInf PInf = PInf"
| "fmul NInf NInf = PInf"
| "fmul PInf NInf = NInf"
| "fmul NInf PInf = NInf"

fun fdiv :: "npfloat \<Rightarrow> npfloat \<Rightarrow> npfloat" where
  "fdiv NaN _ = NaN"
| "fdiv _ NaN = NaN"
| "fdiv (Fin a) (Fin b) =
     (if b \<noteq> 0 then Fin (a / b)
      else if a = 0 then NaN
      else if 0 < a then PInf else NInf)"
| "fdiv (Fin a) PInf = Fin 0"
| "fdiv (Fin a) NInf = Fin 0"
| "fdiv PInf (Fin b) = (if 0 \<le> b then PInf else NInf)"
| "fdiv NInf (Fin b) = (if 0 \<le> b then NInf else PInf)"
| "fdiv PInf PInf = NaN"
| "fdiv PInf NInf = NaN"
| "fdiv NInf PInf = NaN"
| "fdiv NInf NInf = NaN"

text \<open>\<open>np.sum\<close> and \<open>np.prod\<close> of a one-dimensional array (\<open>0.0\<close> and \<open>1.0\<close> when empty).\<close>

definition fsum :: "npfloat list \<Rightarrow> npfloat" where
  "fsum xs = foldr fadd xs (Fin 0)"

definition fprod :: "npfloat list \<Rightarrow> npfloat" where
  "fprod xs = foldr fmul xs (Fin 1)"

text \<open>\<open>10**x\<close> and \<open>np.log10(x)\<close>.\<close>

fun np_pow10 :: "npfloat \<Rightarrow> npfloat" where
  "np_pow10 (Fin x) = Fin (10 powr x)"
| "np_pow10 PInf = PInf"
| "np_pow10 NInf = Fin 0"
| "np_pow10 NaN = NaN"

fun np_log10 :: "npfloat \<Rightarrow> npfloat" where
  "np_log10 (Fin x) = (if 0 < x then Fin (log 10 x) else if x = 0 then NInf else NaN)"
| "np_log10 PInf = PInf"
| "np_log10 NInf = NaN"
| "np_log10 NaN = NaN"

subsection \<open>Exceptions and array primitives\<close>

datatype py_error = IndexError | ValueError | TypeError

text \<open>
  An elementwise binary operation on two one-dimensional arrays, with NumPy's
  broadcasting: equal lengths, or one operand of length 1; any other pair of shapes
  raises \<open>ValueError\<close>.
\<close>

definition np_broadcast ::
  "(npfloat \<Rightarrow> npfloat \<Rightarrow> npfloat) \<Rightarrow> npfloat list \<Rightarrow> npfloat list \<Rightarrow> py_error + npfloat list"
where
  "np_broadcast f xs ys =
     (if length xs = length ys then Inr (map2 f xs ys)
      else if length xs = 1 then Inr (map (f (hd xs)) ys)
      else if length ys = 1 then Inr (map (\<lambda>x. f x (hd ys)) xs)
      else Inl ValueError)"

text \<open>
  Age bins are an array of shape \<open>(N, 2)\<close>: a list of pairs \<open>(log10 t_start, log10 t_end)\<close>.
  \<open>np.diff(10**agebins, axis=-1)[:, 0]\<close> is the width of every bin in linear years.
\<close>

type_synonym agebins = "(npfloat \<times> npfloat) list"

definition time_per_bin :: "agebins \<Rightarrow> npfloat list" where
  "time_per_bin agebins = map (\<lambda>(s, e). fsub (np_pow10 e) (np_pow10 s)) agebins"

text \<open>
  \<open>np.linspace(start, stop, num)\<close> for \<open>num \<ge> 0\<close>: \<open>arange(num) * step + start\<close> with
  \<open>step = (stop - start) / (num - 1)\<close>, the last sample overwritten by \<open>stop\<close> when
  \<open>num > 1\<close>; for \<open>num = 1\<close> the single sample is \<open>0 * (stop - start) + start\<close>.
\<close>

definition np_linspace :: "npfloat \<Rightarrow> npfloat \<Rightarrow> nat \<Rightarrow> npfloat list" where
  "np_linspace start stop num =
     (let delta = fsub stop start in
      if num = 0 then []
      else if num = 1 then [fadd (fmul (Fin 0) delta) start]
      else
        (let step = fdiv delta (Fin (real (num - 1)))
         in map (\<lambda>i. fadd (fmul (Fin (real i)) step) start) [0..<num - 1] @ [stop]))"

text \<open>\<open>np.cumprod\<close>: the running products, left to right.\<close>

fun cumprod_from :: "npfloat \<Rightarrow> npfloat list \<Rightarrow> npfloat list" where
  "cumprod_from p [] = []"
| "cumprod_from p (x # xs) = fmul p x # cumprod_from (fmul p x) xs"

definition np_cumprod :: "npfloat list \<Rightarrow> npfloat list" where
  "np_cumprod xs = cumprod_from (Fin 1) xs"

text \<open>
  A Python number that the source uses both as a factor and as the \<open>obj\<close> argument of
  \<open>np.insert\<close>: an \<open>int\<close> or a \<open>float\<close>.
\<close>

datatype pynum = PyInt int | PyFloat npfloat

fun num_val :: "pynum \<Rightarrow> npfloat" where
  "num_val (PyInt k) = Fin (real_of_int k)"
| "num_val (PyFloat x) = x"

text \<open>
  \<open>np.insert(arr, obj, values)\<close> for a one-dimensional float array, a scalar \<open>obj\<close> and
  a scalar value. With \<open>N = len(arr)\<close>, NumPy raises \<open>IndexError\<close> when
  \<open>obj < -N or obj > N\<close>, adds \<open>N\<close> to a negative index, and copies \<open>arr[:obj]\<close>, the
  value and \<open>arr[obj:]\<close>. A float that passes the bounds check fails at the slice
  (\<open>TypeError\<close>: slice indices must be integers; NumPy 1.12 and later); comparisons
  with \<open>nan\<close> are false, so \<open>nan\<close> passes the bounds check and fails there too.
\<close>

fun np_insert :: "npfloat list \<Rightarrow> pynum \<Rightarrow> npfloat \<Rightarrow> py_error + npfloat list" where
  "np_insert arr (PyInt k) v =
     (let N = int (length arr) in
      if k < - N \<or> N < k then Inl IndexError
      else
        (let idx = nat (if k < 0 then k + N else k)
         in Inr (take idx arr @ [v] @ drop idx arr)))"
| "np_insert arr (PyFloat (Fin x)) v =
     (let N = real (length arr) in
      if x < - N \<or> N < x then Inl IndexError else Inl TypeError)"
| "np_insert arr (PyFloat PInf) v = Inl IndexError"
| "np_insert arr (PyFloat NInf) v = Inl IndexError"
| "np_insert arr (PyFloat NaN) v = Inl TypeError"

subsection \<open>The calling convention\<close>

text \<open>
  Every transform is declared \<open>def f(named parameters, **extras)\<close>: Python binds the
  keywords that name a parameter to it and collects all other keywords in the
  dictionary \<open>extras\<close>, which is the last argument of every function below. The type of
  the extra values is left open.
\<close>

type_synonym 'x kwargs = "string \<rightharpoonup> 'x"

subsection \<open>Basic convenience transforms\<close>

definition stellar_logzsol :: "npfloat \<Rightarrow> 'x kwargs \<Rightarrow> npfloat" where
  "stellar_logzsol logzsol extras = logzsol"

definition delogify_mass :: "npfloat \<Rightarrow> 'x kwargs \<Rightarrow> npfloat" where
  "delogify_mass logmass extras = np_pow10 logmass"

definition tburst_from_fage :: "npfloat \<Rightarrow> npfloat \<Rightarrow> 'x kwargs \<Rightarrow> npfloat" where
  "tburst_from_fage tage fage_burst extras = fmul tage fage_burst"

text \<open>
  \<open>cosmo.age(zred).value\<close> is the external cosmology's age of the universe in Gyr; the
  lookup is the parameter \<open>cosmo_age\<close>.
\<close>

definition tage_from_tuniv ::
  "(npfloat \<Rightarrow> npfloat) \<Rightarrow> npfloat \<Rightarrow> npfloat \<Rightarrow> 'x kwargs \<Rightarrow> npfloat"
where
  "tage_from_tuniv cosmo_age zred tage_tuniv extras =
     (let tuniv = cosmo_age zred;
          tage = fmul tage_tuniv tuniv
      in tage)"

text \<open>
  \<open>agebins[0]\<close> and \<open>agebins[1][1]\<close> raise \<open>IndexError\<close> on fewer than two bins. The
  result \<open>np.array([agelims[:-1], agelims[1:]]).T\<close> pairs every edge with its successor.
\<close>

definition zred_to_agebins ::
  "(npfloat \<Rightarrow> npfloat) \<Rightarrow> npfloat \<Rightarrow> agebins \<Rightarrow> 'x kwargs \<Rightarrow> py_error + agebins"
where
  "zred_to_agebins cosmo_age zred agebins extras =
     (let tuniv = fmul (cosmo_age zred) (Fin 1000000000);
          tbinmax = fmul tuniv (Fin 0.85);
          ncomp = length agebins
      in if ncomp < 2 then Inl IndexError
         else
           (let agelims = [fst (agebins ! 0), snd (agebins ! 0)]
                  @ np_linspace (snd (agebins ! 1)) (np_log10 tbinmax) (ncomp - 2)
                  @ [np_log10 tuniv]
            in Inr (zip (butlast agelims) (tl agelims))))"

definition dustratio_to_dust1 :: "npfloat \<Rightarrow> npfloat \<Rightarrow> 'x kwargs \<Rightarrow> npfloat" where
  "dustratio_to_dust1 dust2 dust_ratio extras = fmul dust2 dust_ratio"

subsection \<open>Transforms for the Prospector-alpha non-parametric SFH\<close>

text \<open>
  \<open>z_fraction[0]\<close> raises \<open>IndexError\<close> on an empty vector. The loop assigns
  \<open>sfr_fraction[i]\<close> for \<open>i = 1, ..., len(z_fraction) - 1\<close>; index \<open>-1\<close> is the last
  index \<open>len(z_fraction)\<close> and \<open>sfr_fraction[:-1]\<close> is all but the last entry.
\<close>

definition zfrac_to_sfrac :: "npfloat list \<Rightarrow> 'x kwargs \<Rightarrow> py_error + npfloat list" where
  "zfrac_to_sfrac z_fraction extras =
     (if z_fraction = [] then Inl IndexError
      else
        (let n = length z_fraction;
             sfr_fraction = replicate (n + 1) (Fin 0);
             sfr_fraction = sfr_fraction[0 := fsub (Fin 1) (z_fraction ! 0)];
             sfr_fraction =
               fold (\<lambda>i s. s[i := fmul (fprod (take i z_fraction)) (fsub (Fin 1) (z_fraction ! i))])
                 [1..<n] sfr_fraction;
             sfr_fraction = sfr_fraction[n := fsub (Fin 1) (fsum (butlast sfr_fraction))]
         in Inr sfr_fraction))"

definition zfrac_to_masses ::
  "npfloat \<Rightarrow> npfloat list \<Rightarrow> agebins \<Rightarrow> 'x kwargs \<Rightarrow> py_error + npfloat list"
where
  "zfrac_to_masses total_mass z_fraction agebins extras =
     (if z_fraction = [] then Inl IndexError
      else
        (let n = length z_fraction;
             sfr_fraction = replicate (n + 1) (Fin 0);
             sfr_fraction = sfr_fraction[0 := fsub (Fin 1) (z_fraction ! 0)];
             sfr_fraction =
               fold (\<lambda>i s. s[i := fmul (fprod (take i z_fraction)) (fsub (Fin 1) (z_fraction ! i))])
                 [1..<n] sfr_fraction;
             sfr_fraction = sfr_fraction[n := fsub (Fin 1) (fsum (butlast sfr_fraction))]
         in case np_broadcast fmul sfr_fraction (time_per_bin agebins) of
              Inl err \<Rightarrow> Inl err
            | Inr mass_fraction \<Rightarrow>
                (let mass_fraction = map (\<lambda>m. fdiv m (fsum mass_fraction)) mass_fraction;
                     masses = map (fmul total_mass) mass_fraction
                 in Inr masses)))"

definition zfrac_to_sfr ::
  "npfloat \<Rightarrow> npfloat list \<Rightarrow> agebins \<Rightarrow> 'x kwargs \<Rightarrow> py_error + npfloat list"
where
  "zfrac_to_sfr total_mass z_fraction agebins extras =
     (if z_fraction = [] then Inl IndexError
      else
        (let n = length z_fraction;
             sfr_fraction = replicate (n + 1) (Fin 0);
             sfr_fraction = sfr_fraction[0 := fsub (Fin 1) (z_fraction ! 0)];
             sfr_fraction =
               fold (\<lambda>i s. s[i := fmul (fprod (take i z_fraction)) (fsub (Fin 1) (z_fraction ! i))])
                 [1..<n] sfr_fraction;
             sfr_fraction = sfr_fraction[n := fsub (Fin 1) (fsum (butlast sfr_fraction))]
         in case np_broadcast fmul sfr_fraction (time_per_bin agebins) of
              Inl err \<Rightarrow> Inl err
            | Inr mass_fraction \<Rightarrow>
                (let mass_fraction = map (\<lambda>m. fdiv m (fsum mass_fraction)) mass_fraction;
                     masses = map (fmul total_mass) mass_fraction
                 in np_broadcast fdiv masses (time_per_bin agebins))))"

text \<open>
  The inverse. \<open>np.zeros(len(sfr_fraction) - 1)\<close> raises \<open>ValueError\<close> on an empty mass
  array (negative dimension) and \<open>z_fraction[0] = ...\<close> raises \<open>IndexError\<close> on a single
  bin. The loop reads the entries of \<open>z_fraction\<close> it has already written
  (\<open>np.prod(z_fraction[:i])\<close>). No division is guarded.
\<close>

definition masses_to_zfrac ::
  "npfloat list \<Rightarrow> agebins \<Rightarrow> 'x kwargs \<Rightarrow> py_error + (npfloat \<times> npfloat list)"
where
  "masses_to_zfrac mass agebins extras =
     (let total_mass = fsum mass
      in case np_broadcast fdiv mass (time_per_bin agebins) of
           Inl err \<Rightarrow> Inl err
         | Inr sfr_fraction \<Rightarrow>
             (let sfr_fraction = map (\<lambda>s. fdiv s (fsum sfr_fraction)) sfr_fraction
              in if length sfr_fraction = 0 then Inl ValueError
                 else
                   (let z_fraction = replicate (length sfr_fraction - 1) (Fin 0)
                    in if z_fraction = [] then Inl IndexError
                       else
                         (let z_fraction = z_fraction[0 := fsub (Fin 1) (sfr_fraction ! 0)];
                              z_fraction =
                                fold (\<lambda>i z. z[i := fsub (Fin 1)
                                                      (fdiv (sfr_fraction ! i) (fprod (take i z)))])
                                  [1..<length z_fraction] z_fraction
                          in Inr (total_mass, z_fraction)))))"

subsection \<open>Transforms for the SFR-ratio non-parametric SFH\<close>

text \<open>
  The source calls \<open>np.insert(sfr*sfr0, sfr0, 0)\<close>: the array, then \<open>sfr0\<close> in the
  position of the index, then \<open>0\<close> in the position of the value.
\<close>

definition sfratio_to_sfr :: "npfloat list \<Rightarrow> pynum \<Rightarrow> 'x kwargs \<Rightarrow> py_error + npfloat list" where
  "sfratio_to_sfr sfr_ratio sfr0 extras =
     (let sfr = np_cumprod sfr_ratio;
          all_sfr = np_insert (map (\<lambda>x. fmul x (num_val sfr0)) sfr) sfr0 (Fin 0)
      in all_sfr)"

definition sfratio_to_mass ::
  "npfloat list \<Rightarrow> pynum \<Rightarrow> agebins \<Rightarrow> 'x kwargs \<Rightarrow> py_error + npfloat list"
where
  "sfratio_to_mass sfr_ratio sfr0 agebins extras =
     (case sfratio_to_sfr sfr_ratio sfr0 (Map.empty :: string \<rightharpoonup> unit) of
        Inl err \<Rightarrow> Inl err
      | Inr sfr \<Rightarrow> np_broadcast fmul sfr (time_per_bin agebins))"

subsection \<open>Closed forms over the reals\<close>

text \<open>
  The stick-breaking fractions in exact arithmetic, used to state what the loops
  compute on finite inputs: entry \<open>i\<close> is the product of the first \<open>i\<close> z-fractions
  times \<open>1 - z\<^sub>i\<close>, and the last entry is what remains of the stick.
\<close>

definition stick :: "real list \<Rightarrow> nat \<Rightarrow> real" where
  "stick zs i = prod_list (take i zs) * (1 - zs ! i)"

definition sfrac_of :: "real list \<Rightarrow> real list" where
  "sfrac_of zs = map (stick zs) [0..<length zs] @ [prod_list zs]"

text \<open>
  The inverse in exact arithmetic: \<open>rest s i\<close> is what is left of the stick after the
  first \<open>i\<close> fractions of \<open>s\<close>, and entry \<open>i\<close> of \<open>zfrac_of s\<close> is \<open>1 - s\<^sub>i / rest s i\<close>.
\<close>

definition rest :: "real list \<Rightarrow> nat \<Rightarrow> real" where
  "rest s i = 1 - sum_list (take i s)"

definition zfrac_of :: "real list \<Rightarrow> real list" where
  "zfrac_of s = map (\<lambda>i. 1 - s ! i / rest s i) [0..<length s - 1]"

section \<open>Arithmetic on finite values\<close>

lemma fsub_Fin [simp]: "fsub (Fin a) (Fin b) = Fin (a - b)"
  by (simp add: fsub_def)

lemma fsum_Fin [simp]: "fsum (map Fin xs) = Fin (sum_list xs)"
  by (induction xs) (simp_all add: fsum_def)

lemma fsum_Fin_map: "fsum (map (\<lambda>x. Fin (f x)) xs) = Fin (sum_list (map f xs))"
  by (induction xs) (simp_all add: fsum_def)

lemma fprod_Fin [simp]: "fprod (map Fin xs) = Fin (prod_list xs)"
  by (induction xs) (simp_all add: fprod_def)

lemma fsub_fsub_one: "fsub (Fin 1) (fsub (Fin 1) z) = z"
  by (cases z) (simp_all add: fsub_def)

lemma fadd_zero_right: "fadd x (Fin 0) = x"
  by (cases x) simp_all

text \<open>
  Addition and multiplication stay associative and commutative with the non-finite
  values, so the order in which \<open>np.sum\<close> and \<open>np.prod\<close> combine the entries does not
  matter: the right-nested folds above equal the left-to-right accumulation.
\<close>

lemma fadd_commute: "fadd a b = fadd b a"
  by (cases a; cases b) simp_all

lemma fadd_assoc: "fadd (fadd a b) c = fadd a (fadd b c)"
  by (cases a; cases b; cases c) simp_all

lemma fmul_commute: "fmul a b = fmul b a"
  by (cases a; cases b) simp_all

lemma fmul_assoc: "fmul (fmul a b) c = fmul a (fmul b c)"
  by (cases a; cases b; cases c) (auto simp: zero_less_mult_iff)

lemma fadd_zero_left: "fadd (Fin 0) x = x" by (cases x) simp_all
lemma fmul_one_left: "fmul (Fin 1) x = x" by (cases x) simp_all
lemma fmul_one_right: "fmul x (Fin 1) = x" by (cases x) simp_all

lemma fsum_left_to_right: "fsum xs = fold (\<lambda>x acc. fadd acc x) xs (Fin 0)"
proof -
  have "fold (\<lambda>x acc. fadd acc x) xs a = fadd a (foldr fadd xs (Fin 0))" for a
    by (induction xs arbitrary: a) (simp_all add: fadd_zero_right fadd_assoc)
  then show ?thesis by (simp add: fsum_def fadd_zero_left)
qed

lemma fprod_left_to_right: "fprod xs = fold (\<lambda>x acc. fmul acc x) xs (Fin 1)"
proof -
  have "fold (\<lambda>x acc. fmul acc x) xs a = fmul a (foldr fmul xs (Fin 1))" for a
    by (induction xs arbitrary: a) (simp_all add: fmul_one_right fmul_assoc)
  then show ?thesis by (simp add: fprod_def fmul_one_left)
qed

lemma np_cumprod_nth: "i < length xs \<Longrightarrow> np_cumprod xs ! i = fprod (take (Suc i) xs)"
proof -
  have "i < length xs \<Longrightarrow> cumprod_from p xs ! i = fmul p (fprod (take (Suc i) xs))" for p
  proof (induction xs arbitrary: p i)
    case Nil then show ?case by simp
  next
    case (Cons x xs)
    show ?case
    proof (cases i)
      case 0 then show ?thesis by (simp add: fprod_def fmul_one_right)
    next
      case (Suc j)
      with Cons show ?thesis by (simp add: fprod_def fmul_assoc)
    qed
  qed
  then show "i < length xs \<Longrightarrow> np_cumprod xs ! i = fprod (take (Suc i) xs)"
    by (simp add: np_cumprod_def fmul_one_left)
qed

section \<open>Loops that fill an array\<close>

lemma fold_prefix_update:
  assumes "length t = length a" and "take k t = take k a"
    and "\<forall>i. k \<le> i \<and> i < n \<longrightarrow> t ! i = F i (take i t)"
    and "k \<le> n" and "n \<le> length a"
  shows "fold (\<lambda>i s. s[i := F i (take i s)]) [k..<n] a = take n t @ drop n a"
  using assms(3-5)
proof (induction n)
  case 0
  then show ?case using assms(2) by simp
next
  case (Suc n)
  show ?case
  proof (cases "k = Suc n")
    case True
    then show ?thesis using assms(2) by simp
  next
    case False
    with Suc.prems have kn: "k \<le> n" and nl: "n < length a" by simp_all
    have IH: "fold (\<lambda>i s. s[i := F i (take i s)]) [k..<n] a = take n t @ drop n a"
      using Suc.IH Suc.prems kn by simp
    have tn: "t ! n = F n (take n t)" using Suc.prems(1) kn by simp
    have len: "length (take n t) = n" using nl assms(1) by simp
    have "fold (\<lambda>i s. s[i := F i (take i s)]) [k..<Suc n] a
          = (take n t @ drop n a)[n := F n (take n (take n t @ drop n a))]"
      using kn IH by simp
    also have "take n (take n t @ drop n a) = take n t" using len by simp
    also have "(take n t @ drop n a)[n := F n (take n t)] = take n t @ (drop n a)[0 := t ! n]"
      using len tn by (simp add: list_update_append)
    also have "(drop n a)[0 := t ! n] = t ! n # drop (Suc n) a"
      using nl by (simp add: Cons_nth_drop_Suc [symmetric])
    also have "take n t @ t ! n # drop (Suc n) a = take (Suc n) t @ drop (Suc n) a"
      using nl assms(1) by (simp add: take_Suc_conv_app_nth)
    finally show ?thesis .
  qed
qed

lemma sfrac_loop_Fin:
  assumes "zs \<noteq> []"
  shows "fold (\<lambda>i s. s[i := fmul (fprod (take i (map Fin zs))) (fsub (Fin 1) (map Fin zs ! i))])
           [1..<length zs]
           ((replicate (length zs + 1) (Fin 0))[0 := fsub (Fin 1) (map Fin zs ! 0)])
         = map Fin (map (stick zs) [0..<length zs]) @ [Fin 0]"
proof -
  let ?n = "length zs"
  let ?a = "(replicate (?n + 1) (Fin 0))[0 := fsub (Fin 1) (map Fin zs ! 0)]"
  let ?t = "map Fin (map (stick zs) [0..<?n]) @ [Fin 0]"
  let ?F = "\<lambda>i (p::npfloat list). fmul (fprod (take i (map Fin zs))) (fsub (Fin 1) (map Fin zs ! i))"
  from assms have n0: "0 < ?n" by simp
  have 1: "length ?t = length ?a" by simp
  have 2: "take 1 ?t = take 1 ?a"
    using n0 by (cases zs) (simp_all add: stick_def upt_rec take_Suc_conv_app_nth)
  have 3: "\<forall>i. 1 \<le> i \<and> i < ?n \<longrightarrow> ?t ! i = ?F i (take i ?t)"
    by (auto simp: nth_append stick_def take_map)
  have "fold (\<lambda>i s. s[i := ?F i (take i s)]) [1..<?n] ?a = take ?n ?t @ drop ?n ?a"
    by (rule fold_prefix_update [OF 1 2 3]) (use assms in \<open>simp_all add: Suc_le_eq\<close>)
  also have "take ?n ?t = map Fin (map (stick zs) [0..<?n])" by simp
  also have "drop ?n ?a = [Fin 0]" using n0 by (simp del: replicate_Suc) simp
  finally show ?thesis .
qed

lemma sum_stick: "k \<le> length zs \<Longrightarrow> sum_list (map (stick zs) [0..<k]) = 1 - prod_list (take k zs)"
proof (induction k)
  case 0
  then show ?case by simp
next
  case (Suc k)
  then have "k < length zs" by simp
  then have "prod_list (take (Suc k) zs) = prod_list (take k zs) * zs ! k"
    by (simp add: take_Suc_conv_app_nth)
  with Suc show ?case by (simp add: stick_def algebra_simps)
qed

lemma update_last: "length xs = n \<Longrightarrow> (xs @ [x])[n := v] = xs @ [v]"
  by (simp add: list_update_append)

lemma zfrac_to_sfrac_Fin:
  assumes "zs \<noteq> []"
  shows "zfrac_to_sfrac (map Fin zs) extras = Inr (map Fin (sfrac_of zs))"
  unfolding zfrac_to_sfrac_def Let_def length_map sfrac_loop_Fin [OF assms]
  using assms by (simp add: update_last sfrac_of_def sum_stick fsum_Fin_map comp_def)

section \<open>The forward simplex transform\<close>

lemma prod_list_unit_interval:
  "\<forall>z\<in>set zs. 0 < z \<and> z < (1::real) \<Longrightarrow> 0 < prod_list zs \<and> prod_list zs \<le> 1"
proof (induction zs)
  case Nil
  then show ?case by simp
next
  case (Cons z zs)
  then have z: "0 < z" "z < 1" and p: "0 < prod_list zs" "prod_list zs \<le> 1" by simp_all
  have "z * prod_list zs \<le> 1 * 1" using z p by (intro mult_mono) simp_all
  then show ?case using z p by simp
qed

lemma stick_unit_interval:
  assumes "\<forall>z\<in>set zs. 0 < z \<and> z < (1::real)" and "i < length zs"
  shows "0 \<le> stick zs i \<and> stick zs i \<le> 1"
proof -
  have "\<forall>z\<in>set (take i zs). 0 < z \<and> z < 1"
    using assms(1) by (meson in_set_takeD)
  then have p: "0 < prod_list (take i zs)" "prod_list (take i zs) \<le> 1"
    using prod_list_unit_interval by blast+
  have z: "0 < zs ! i" "zs ! i < 1" using assms by simp_all
  have "prod_list (take i zs) * (1 - zs ! i) \<le> 1 * 1"
    using p z by (intro mult_mono) simp_all
  then show ?thesis using p z by (simp add: stick_def)
qed

lemma length_sfrac_of: "length (sfrac_of zs) = length zs + 1"
  by (simp add: sfrac_of_def)

lemma sum_sfrac_of: "sum_list (sfrac_of zs) = 1"
  by (simp add: sfrac_of_def sum_stick)

lemma sfrac_of_unit_interval:
  assumes "\<forall>z\<in>set zs. 0 < z \<and> z < (1::real)"
  shows "\<forall>s\<in>set (sfrac_of zs). 0 \<le> s \<and> s \<le> 1"
  using prod_list_unit_interval [OF assms] stick_unit_interval [OF assms]
  by (auto simp: sfrac_of_def)

text \<open>
  In exact arithmetic the stick-breaking fractions of z-fractions strictly between 0
  and 1 form a simplex vector: one entry more than the input, every entry in \<open>[0, 1]\<close>,
  sum 1. This is a property of the formula. It says nothing about rounding: the program
  computes the last entry as \<open>1 - np.sum(...)\<close> in binary64, where the partial sum is a
  rounded value.
\<close>

lemma zfrac_to_sfrac_simplex_exact:
  assumes "zs \<noteq> []" and "\<forall>z\<in>set zs. 0 < z \<and> z < 1"
  shows "\<exists>ss. zfrac_to_sfrac (map Fin zs) extras = Inr (map Fin ss)
              \<and> length ss = length zs + 1
              \<and> (\<forall>s\<in>set ss. 0 \<le> s \<and> s \<le> 1)
              \<and> sum_list ss = 1"
  using zfrac_to_sfrac_Fin [OF assms(1)] length_sfrac_of sum_sfrac_of
    sfrac_of_unit_interval [OF assms(2)]
  by blast

text \<open>
  For a single z-fraction \<open>z0\<close> (two bins) the program computes \<open>1 - z0\<close> and then
  \<open>1 - (1 - z0)\<close>, the sum of the one-element slice being its element. In exact
  arithmetic the second entry is \<open>z0\<close>; in binary64 it is \<open>z0\<close> only up to two roundings.
\<close>

lemma zfrac_to_sfrac_two_bins_computes:
  "zfrac_to_sfrac [z0] extras = Inr [fsub (Fin 1) z0, fsub (Fin 1) (fsub (Fin 1) z0)]"
  by (simp add: zfrac_to_sfrac_def fsum_def Let_def fadd_zero_right)

lemma zfrac_to_sfrac_two_bins_exact:
  "zfrac_to_sfrac [z0] extras = Inr [fsub (Fin 1) z0, z0]"
  by (simp add: zfrac_to_sfrac_two_bins_computes fsub_fsub_one)

section \<open>The SFR-ratio transform\<close>

text \<open>
  Claim C3, evaluated on the code. For \<open>sfr_ratio = [2.0]\<close> and \<open>sfr0 = 10\<close> the claim
  expects the SFR sequence \<open>[10, 20]\<close>. The source passes \<open>sfr0\<close> as the index and \<open>0\<close>
  as the value of \<open>np.insert\<close>, so the call inserts at index 10 into an array of
  length 1 and raises \<open>IndexError\<close>.
\<close>

theorem sfratio_to_sfr_scenario_raises:
  "sfratio_to_sfr [Fin 2] (PyInt 10) extras = Inl IndexError"
  by (simp add: sfratio_to_sfr_def np_cumprod_def Let_def)

section \<open>Extra keywords\<close>

text \<open>
  Claim C9. Every transform of the module returns the same result for any two
  dictionaries of extra keywords, the named parameters being equal.
\<close>

theorem extras_ignored:
  "stellar_logzsol logzsol ex = stellar_logzsol logzsol ex'
   \<and> delogify_mass logmass ex = delogify_mass logmass ex'
   \<and> tburst_from_fage tage fage_burst ex = tburst_from_fage tage fage_burst ex'
   \<and> tage_from_tuniv cosmo_age zred tage_tuniv ex = tage_from_tuniv cosmo_age zred tage_tuniv ex'
   \<and> zred_to_agebins cosmo_age zred agebins ex = zred_to_agebins cosmo_age zred agebins ex'
   \<and> dustratio_to_dust1 dust2 dust_ratio ex = dustratio_to_dust1 dust2 dust_ratio ex'
   \<and> zfrac_to_sfrac z_fraction ex = zfrac_to_sfrac z_fraction ex'
   \<and> zfrac_to_masses total_mass z_fraction agebins ex = zfrac_to_masses total_mass z_fraction agebins ex'
   \<and> zfrac_to_sfr total_mass z_fraction agebins ex = zfrac_to_sfr total_mass z_fraction agebins ex'
   \<and> masses_to_zfrac mass agebins ex = masses_to_zfrac mass agebins ex'
   \<and> sfratio_to_sfr sfr_ratio sfr0 ex = sfratio_to_sfr sfr_ratio sfr0 ex'
   \<and> sfratio_to_mass sfr_ratio sfr0 agebins ex = sfratio_to_mass sfr_ratio sfr0 agebins ex'"
  by (simp add: stellar_logzsol_def delogify_mass_def tburst_from_fage_def tage_from_tuniv_def
      zred_to_agebins_def dustratio_to_dust1_def zfrac_to_sfrac_def zfrac_to_masses_def
      zfrac_to_sfr_def masses_to_zfrac_def sfratio_to_sfr_def sfratio_to_mass_def)

section \<open>Masses and star formation rates\<close>

lemma length_fold_update: "length (fold (\<lambda>i s. s[i := g i s]) is a) = length a"
  by (induction "is" arbitrary: a) simp_all

lemma np_broadcast_same: "length xs = length ys \<Longrightarrow> np_broadcast f xs ys = Inr (map2 f xs ys)"
  by (simp add: np_broadcast_def)

text \<open>
  Claim C10. For every total mass, every non-empty z-fraction vector and age bins of
  matching length, \<open>zfrac_to_masses\<close> returns per-bin masses and \<open>zfrac_to_sfr\<close>
  returns these masses divided elementwise by the linear bin widths
  \<open>10^end - 10^start\<close>.
\<close>

theorem zfrac_to_sfr_is_masses_over_widths:
  assumes "z_fraction \<noteq> []" and "length agebins = length z_fraction + 1"
  shows "\<exists>masses. zfrac_to_masses total_mass z_fraction agebins extras = Inr masses
            \<and> length masses = length agebins
            \<and> zfrac_to_sfr total_mass z_fraction agebins extras
                = Inr (map2 fdiv masses (map (\<lambda>(s, e). fsub (np_pow10 e) (np_pow10 s)) agebins))"
  using assms
  by (simp add: zfrac_to_masses_def zfrac_to_sfr_def Let_def np_broadcast_same
      length_fold_update time_per_bin_def)

theorem zfrac_to_sfr_is_masses_over_widths_witness:
  "\<exists>masses. zfrac_to_masses (Fin 100) [Fin (1/2), Fin (1/2)]
                [(Fin 6, Fin 7), (Fin 7, Fin 8), (Fin 8, Fin 9)] (Map.empty :: string \<rightharpoonup> unit) = Inr masses
            \<and> length masses = 3
            \<and> zfrac_to_sfr (Fin 100) [Fin (1/2), Fin (1/2)]
                [(Fin 6, Fin 7), (Fin 7, Fin 8), (Fin 8, Fin 9)] (Map.empty :: string \<rightharpoonup> unit)
                = Inr (map2 fdiv masses [Fin 9000000, Fin 90000000, Fin 900000000])"
  using zfrac_to_sfr_is_masses_over_widths [of "[Fin (1/2), Fin (1/2)]"
      "[(Fin 6, Fin 7), (Fin 7, Fin 8), (Fin 8, Fin 9)]" "Fin 100" Map.empty]
  by (simp add: numeral_3_eq_3)

lemma time_per_bin_scenario:
  "time_per_bin [(Fin 6, Fin 7), (Fin 7, Fin 8), (Fin 8, Fin 9)]
     = [Fin 9000000, Fin 90000000, Fin 900000000]"
  by (simp add: time_per_bin_def)

text \<open>
  Claim C6. With \<open>agebins = [[6,7],[7,8],[8,9]]\<close>, \<open>z_fraction = [0.5, 0.5]\<close> and
  \<open>total_mass = 100\<close>: the widths are \<open>[9e6, 9e7, 9e8]\<close>, the sfr fractions are
  \<open>[0.5, 0.25, 0.25]\<close>, the masses are \<open>[0.5 * 9e6, 0.25 * 9e7, 0.25 * 9e8]\<close> scaled by
  the common factor \<open>100 / 2.52e8\<close>, they sum to 100 and are strictly increasing.
\<close>

theorem zfrac_to_masses_scenario:
  "time_per_bin [(Fin 6, Fin 7), (Fin 7, Fin 8), (Fin 8, Fin 9)]
     = [Fin 9000000, Fin 90000000, Fin 900000000]
   \<and> zfrac_to_sfrac [Fin 0.5, Fin 0.5] extras = Inr [Fin 0.5, Fin 0.25, Fin 0.25]
   \<and> zfrac_to_masses (Fin 100) [Fin 0.5, Fin 0.5]
        [(Fin 6, Fin 7), (Fin 7, Fin 8), (Fin 8, Fin 9)] extras
      = Inr [Fin (1 / 2520000 * (0.5 * 9000000)), Fin (1 / 2520000 * (0.25 * 90000000)),
             Fin (1 / 2520000 * (0.25 * 900000000))]
   \<and> (1 / 2520000 * (0.5 * 9000000) + 1 / 2520000 * (0.25 * 90000000)
        + 1 / 2520000 * (0.25 * 900000000) = (100::real))
   \<and> (1 / 2520000 * (0.5 * 9000000) < (1 / 2520000 * (0.25 * 90000000) :: real))
   \<and> (1 / 2520000 * (0.25 * 90000000) < (1 / 2520000 * (0.25 * 900000000) :: real))"
  by (simp add: zfrac_to_sfrac_def zfrac_to_masses_def time_per_bin_scenario np_broadcast_def
      fsum_def fprod_def Let_def upt_rec)

section \<open>Age bins from the redshift\<close>

lemma length_np_linspace: "length (np_linspace start stop num) = num"
  by (simp add: np_linspace_def Let_def)

text \<open>
  Claim C8. For every redshift and every template of at least two age bins,
  \<open>zred_to_agebins\<close> returns as many bins as the template has, the first bin is the
  template's first bin, and the last edge is \<open>log10\<close> of the age of the universe at that
  redshift in years (the cosmology's age in Gyr times \<open>1e9\<close>).
\<close>

theorem zred_to_agebins_edges:
  assumes "2 \<le> length agebins"
  shows "\<exists>bins. zred_to_agebins cosmo_age zred agebins extras = Inr bins
           \<and> length bins = length agebins
           \<and> hd bins = agebins ! 0
           \<and> snd (last bins) = np_log10 (fmul (cosmo_age zred) (Fin 1000000000))"
proof -
  let ?L = "np_linspace (snd (agebins ! 1))
              (np_log10 (fmul (fmul (cosmo_age zred) (Fin 1000000000)) (Fin 0.85)))
              (length agebins - 2)"
  let ?u = "np_log10 (fmul (cosmo_age zred) (Fin 1000000000))"
  let ?a = "fst (agebins ! 0)" and ?b = "snd (agebins ! 0)"
  let ?bins = "(?a, ?b) # zip (?b # ?L) (?L @ [?u])"
  have run: "zred_to_agebins cosmo_age zred agebins extras = Inr ?bins"
    using assms by (simp add: zred_to_agebins_def Let_def butlast_append)
  have len: "length ?bins = length agebins"
    using assms by (simp add: length_np_linspace)
  have "last ?bins = last (zip (?b # ?L) (?L @ [?u]))" by simp
  also have "\<dots> = (last (?b # ?L), last (?L @ [?u]))"
    by (rule last_zip) simp_all
  finally have "snd (last ?bins) = ?u" by simp
  with run len show ?thesis by simp
qed

theorem zred_to_agebins_edges_witness:
  "\<exists>bins. zred_to_agebins (\<lambda>z. Fin 13) (Fin 0)
             [(Fin 0, Fin 8), (Fin 8, Fin 9), (Fin 9, Fin 10)] (Map.empty :: string \<rightharpoonup> unit) = Inr bins
           \<and> length bins = 3
           \<and> hd bins = (Fin 0, Fin 8)
           \<and> snd (last bins) = np_log10 (Fin 13000000000)"
  using zred_to_agebins_edges [of "[(Fin 0, Fin 8), (Fin 8, Fin 9), (Fin 9, Fin 10)]"
      "\<lambda>z. Fin 13" "Fin 0" Map.empty]
  by (simp add: numeral_3_eq_3 del: np_log10.simps)

section \<open>The inverse transform and the round trip\<close>

lemma rest_0 [simp]: "rest s 0 = 1"
  by (simp add: rest_def)

lemma rest_Suc: "i < length s \<Longrightarrow> rest s (Suc i) = rest s i - s ! i"
  by (simp add: rest_def take_Suc_conv_app_nth)

lemma length_zfrac_of [simp]: "length (zfrac_of s) = length s - 1"
  by (simp add: zfrac_of_def)

lemma nth_zfrac_of: "i < length s - 1 \<Longrightarrow> zfrac_of s ! i = 1 - s ! i / rest s i"
  by (simp add: zfrac_of_def)

lemma prod_zfrac_of:
  "k \<le> length s - 1 \<Longrightarrow> \<forall>j<k. rest s j \<noteq> 0 \<Longrightarrow> prod_list (take k (zfrac_of s)) = rest s k"
proof (induction k)
  case 0
  then show ?case by simp
next
  case (Suc k)
  then have k: "k < length s - 1" and nz: "rest s k \<noteq> 0" by simp_all
  have IH: "prod_list (take k (zfrac_of s)) = rest s k" using Suc by simp
  have "prod_list (take (Suc k) (zfrac_of s)) = rest s k * (1 - s ! k / rest s k)"
    using k IH by (simp add: take_Suc_conv_app_nth nth_zfrac_of)
  also have "\<dots> = rest s k - s ! k" using nz by (simp add: field_simps)
  also have "\<dots> = rest s (Suc k)" using k by (simp add: rest_Suc)
  finally show ?case .
qed

lemma fmul_NaN_right [simp]: "fmul x NaN = NaN"
  by (cases x) simp_all

lemma fprod_NaN: "NaN \<in> set xs \<Longrightarrow> fprod xs = NaN"
  by (induction xs) (auto simp: fprod_def)

lemma fdiv_NaN_right [simp]: "fdiv x NaN = NaN"
  by (cases x) simp_all

lemma fsub_NaN_right [simp]: "fsub x NaN = NaN"
  by (cases x) (simp_all add: fsub_def)

lemma zfrac_loop:
  assumes len: "2 \<le> length s" and k1: "1 \<le> k" and km: "k \<le> length s - 1"
    and nz: "\<forall>j<k. rest s j \<noteq> 0"
    and deg: "k < length s - 1 \<longrightarrow> rest s k = 0 \<and> s ! k = 0"
  shows "fold (\<lambda>i z. z[i := fsub (Fin 1) (fdiv (map Fin s ! i) (fprod (take i z)))])
           [1..<length s - 1]
           ((replicate (length s - 1) (Fin 0))[0 := fsub (Fin 1) (map Fin s ! 0)])
         = map Fin (take k (zfrac_of s)) @ replicate (length s - 1 - k) NaN"
proof -
  let ?m = "length s - 1"
  let ?a = "(replicate ?m (Fin 0))[0 := fsub (Fin 1) (map Fin s ! 0)]"
  let ?t = "map Fin (take k (zfrac_of s)) @ replicate (?m - k) NaN"
  let ?F = "\<lambda>i p. fsub (Fin 1) (fdiv (map Fin s ! i) (fprod p))"
  have lt: "length ?t = ?m" using km by simp
  have 1: "length ?t = length ?a" using km by simp
  have z0: "zfrac_of s ! 0 = 1 - s ! 0" using len by (simp add: nth_zfrac_of)
  from len obtain m' where m': "length s - 1 = Suc m'"
    by (cases "length s - 1") auto
  have s0: "map Fin s ! 0 = Fin (s ! 0)" using len by (cases s) simp_all
  have "take 1 ?t = map Fin (take 1 (zfrac_of s))"
    using k1 km len by (simp add: take_map min_def)
  also have "take 1 (zfrac_of s) = [zfrac_of s ! 0]"
    using len by (simp add: take_Suc_conv_app_nth)
  finally have "take 1 ?t = [Fin (zfrac_of s ! 0)]" by simp
  moreover have "take 1 ?a = [Fin (1 - s ! 0)]"
    unfolding m' s0 by simp
  ultimately have 2: "take 1 ?t = take 1 ?a" using z0 by simp
  have tNaN: "?t ! j = NaN" if "k \<le> j" "j < ?m" for j
  proof -
    from that have "j - k < ?m - k" by arith
    then have "replicate (?m - k) NaN ! (j - k) = (NaN::npfloat)" by (rule nth_replicate)
    moreover have "length (map Fin (take k (zfrac_of s))) = k" using km by simp
    ultimately show ?thesis using that(1) by (simp add: nth_append)
  qed
  have 3: "\<forall>i. 1 \<le> i \<and> i < ?m \<longrightarrow> ?t ! i = ?F i (take i ?t)"
  proof (intro allI impI)
    fix i assume i: "1 \<le> i \<and> i < ?m"
    then have ilen: "i < length s" by arith
    consider "i < k" | "i = k" | "k < i" by linarith
    then show "?t ! i = ?F i (take i ?t)"
    proof cases
      case 1
      then have "take i ?t = map Fin (take i (zfrac_of s))"
        using km by (simp add: take_map min_def)
      moreover have "prod_list (take i (zfrac_of s)) = rest s i"
        using 1 km nz by (intro prod_zfrac_of) simp_all
      moreover have "rest s i \<noteq> 0" using 1 nz by simp
      moreover have "?t ! i = Fin (1 - s ! i / rest s i)"
        using 1 km i by (simp add: nth_append nth_zfrac_of)
      ultimately show ?thesis using ilen by simp
    next
      case 2
      then have "take i ?t = map Fin (take k (zfrac_of s))"
        using km by simp
      moreover have "prod_list (take k (zfrac_of s)) = rest s k"
        using km nz by (intro prod_zfrac_of) simp_all
      moreover have "rest s k = 0" "s ! k = 0" using 2 i deg by simp_all
      moreover have "?t ! i = NaN" using 2 i by (intro tNaN) simp_all
      ultimately show ?thesis using ilen 2 by simp
    next
      case 3
      have "take i ?t ! k = ?t ! k" using 3 by (rule nth_take)
      also have "\<dots> = NaN" using 3 i by (intro tNaN) simp_all
      finally have "take i ?t ! k = NaN" .
      moreover have "k < length (take i ?t)" using 3 km i by simp
      ultimately have "NaN \<in> set (take i ?t)" by (metis nth_mem)
      then have "fprod (take i ?t) = NaN" by (rule fprod_NaN)
      moreover have "?t ! i = NaN" using 3 i by (intro tNaN) simp_all
      ultimately show ?thesis by simp
    qed
  qed
  have "fold (\<lambda>i z. z[i := ?F i (take i z)]) [1..<?m] ?a = take ?m ?t @ drop ?m ?a"
    by (rule fold_prefix_update [where F = ?F and t = ?t and a = ?a, OF 1 2 3]) (use len in simp_all)
  also have "take ?m ?t = ?t" using lt by simp
  also have "drop ?m ?a = []" by simp
  finally show ?thesis by simp
qed

lemma map2_fdiv_Fin:
  "length xs = length ys \<Longrightarrow> \<forall>y\<in>set ys. y \<noteq> 0 \<Longrightarrow>
     map2 fdiv (map Fin xs) (map Fin ys) = map Fin (map2 (/) xs ys)"
  by (induction xs ys rule: list_induct2) simp_all

lemma map2_fmul_Fin:
  "length xs = length ys \<Longrightarrow> map2 fmul (map Fin xs) (map Fin ys) = map Fin (map2 (*) xs ys)"
  by (induction xs ys rule: list_induct2) simp_all

lemma map_fdiv_Fin: "c \<noteq> 0 \<Longrightarrow> map (\<lambda>x. fdiv x (Fin c)) (map Fin xs) = map Fin (map (\<lambda>x. x / c) xs)"
  by simp

lemma map_fmul_Fin: "map (fmul (Fin m)) (map Fin xs) = map Fin (map ((*) m) xs)"
  by simp

lemma sum_list_divide: "sum_list (map (\<lambda>x. x / c) xs) = sum_list xs / (c::real)"
  by (induction xs) (simp_all add: add_divide_distrib)

lemma weighted_sum_pos:
  "length ss = length ws \<Longrightarrow> \<forall>s\<in>set ss. 0 \<le> s \<Longrightarrow> \<forall>w\<in>set ws. 0 < w \<Longrightarrow>
     0 \<le> sum_list (map2 (*) ss ws) \<and> (0 < sum_list ss \<longrightarrow> 0 < sum_list (map2 (*) ss ws :: real list))"
proof (induction ss ws rule: list_induct2)
  case Nil
  then show ?case by simp
next
  case (Cons s ss w ws)
  then have IH: "0 \<le> sum_list (map2 (*) ss ws)"
    "0 < sum_list ss \<longrightarrow> 0 < sum_list (map2 (*) ss ws)" by simp_all
  from Cons.prems have s: "0 \<le> s" and w: "0 < w" by simp_all
  have sw: "0 \<le> s * w" using s w by simp
  show ?case
  proof (cases "s = 0")
    case True
    then show ?thesis using IH by simp
  next
    case False
    then have "0 < s * w" using s w by simp
    then show ?thesis using IH(1) by simp
  qed
qed

lemma map2_divide_inverse: "map2 (/) ms ws = map2 (*) ms (map inverse (ws :: real list))"
  by (induction ms ws rule: list_induct2') (simp_all add: divide_inverse)

lemma ratio_sum_pos:
  assumes "length ms = length ws" "\<forall>m\<in>set ms. 0 \<le> m" "\<forall>w\<in>set ws. 0 < w" "0 < sum_list ms"
  shows "0 < sum_list (map2 (/) ms (ws :: real list))"
  using weighted_sum_pos [of ms "map inverse ws"] assms
  by (simp add: map2_divide_inverse)

lemma masses_to_zfrac_run:
  assumes "np_broadcast fdiv mass (time_per_bin agebins) = Inr q"
    and "sf = map (\<lambda>x. fdiv x (fsum q)) q" and "2 \<le> length sf"
  shows "masses_to_zfrac mass agebins extras =
           Inr (fsum mass,
                fold (\<lambda>i z. z[i := fsub (Fin 1) (fdiv (sf ! i) (fprod (take i z)))])
                  [1..<length sf - 1]
                  ((replicate (length sf - 1) (Fin 0))[0 := fsub (Fin 1) (sf ! 0)]))"
  using assms(3)
  unfolding masses_to_zfrac_def Let_def assms(1) sum.case assms(2) [symmetric]
  by auto

lemma masses_to_zfrac_Fin:
  assumes tpb: "time_per_bin agebins = map Fin ws"
    and len: "length ms = length ws" "2 \<le> length ms"
    and ws: "\<forall>w\<in>set ws. 0 < w"
    and c: "sum_list (map2 (/) ms ws) \<noteq> 0"
    and s: "s = map (\<lambda>x. x / sum_list (map2 (/) ms ws)) (map2 (/) ms ws)"
  shows "masses_to_zfrac (map Fin ms) agebins extras =
           Inr (Fin (sum_list ms),
                fold (\<lambda>i z. z[i := fsub (Fin 1) (fdiv (map Fin s ! i) (fprod (take i z)))])
                  [1..<length s - 1]
                  ((replicate (length s - 1) (Fin 0))[0 := fsub (Fin 1) (map Fin s ! 0)]))"
proof -
  define q where "q = map2 (/) ms ws"
  have nz: "\<forall>w\<in>set ws. w \<noteq> 0" using ws by auto
  have s': "s = map (\<lambda>x. x / sum_list q) q" and c': "sum_list q \<noteq> 0"
    using s c by (simp_all add: q_def)
  have 1: "np_broadcast fdiv (map Fin ms) (time_per_bin agebins) = Inr (map Fin q)"
    using len nz by (simp add: tpb np_broadcast_def map2_fdiv_Fin q_def)
  have "fsum (map Fin q) = Fin (sum_list q)" by (rule fsum_Fin)
  then have 2: "map Fin s = map (\<lambda>x. fdiv x (fsum (map Fin q))) (map Fin q)"
    using c' by (simp add: s')
  have 3: "2 \<le> length (map Fin s)" using len by (simp add: s' q_def)
  show ?thesis
    using masses_to_zfrac_run [OF 1 2 3, of extras] by simp
qed

lemma rest_tail: "sum_list s = 1 \<Longrightarrow> rest s j = sum_list (drop j s)"
proof -
  assume "sum_list s = 1"
  moreover have "sum_list s = sum_list (take j s) + sum_list (drop j s)"
    by (metis append_take_drop_id sum_list_append)
  ultimately show ?thesis by (simp add: rest_def)
qed

lemma tail_sum_mono:
  assumes "\<forall>x\<in>set s. 0 \<le> (x::real)" and "j \<le> k"
  shows "sum_list (drop k s) \<le> sum_list (drop j s)"
proof -
  have "drop j s = take (k - j) (drop j s) @ drop (k - j) (drop j s)"
    by (simp only: append_take_drop_id)
  also have "drop (k - j) (drop j s) = drop k s" using assms(2) by simp
  finally have "sum_list (drop j s) = sum_list (take (k - j) (drop j s)) + sum_list (drop k s)"
    by (metis sum_list_append)
  moreover have "0 \<le> sum_list (take (k - j) (drop j s))"
    using assms(1) by (intro sum_list_nonneg) (meson in_set_takeD in_set_dropD)
  ultimately show ?thesis by simp
qed

lemma drop_last_two:
  assumes "2 \<le> length s"
  shows "drop (length s - 2) s = [s ! (length s - 2), s ! (length s - 1)]"
proof -
  have a: "length s - 2 < length s" and b: "length s - 1 < length s"
    and c: "Suc (length s - 2) = length s - 1" and d: "Suc (length s - 1) = length s"
    using assms by arith+
  have "drop (length s - 2) s = s ! (length s - 2) # drop (length s - 1) s"
    using Cons_nth_drop_Suc [OF a] c by simp
  also have "drop (length s - 1) s = s ! (length s - 1) # drop (length s) s"
    using Cons_nth_drop_Suc [OF b] d by simp
  finally show ?thesis by simp
qed

lemma rest_pos:
  assumes "2 \<le> length s" and "\<forall>x\<in>set s. 0 \<le> x" and "sum_list s = 1"
    and "0 < s ! (length s - 2) + s ! (length s - 1)" and "j < length s - 1"
  shows "0 < rest s j"
proof -
  have "j \<le> length s - 2" using assms(5) by arith
  then have "sum_list (drop (length s - 2) s) \<le> sum_list (drop j s)"
    using assms(2) by (intro tail_sum_mono)
  moreover have "sum_list (drop (length s - 2) s) = s ! (length s - 2) + s ! (length s - 1)"
    by (simp add: drop_last_two [OF assms(1)])
  ultimately show ?thesis using assms(3,4) by (simp add: rest_tail)
qed

lemma sfrac_of_zfrac_of:
  assumes len: "2 \<le> length s" and sum: "sum_list s = 1"
    and nz: "\<forall>j < length s - 1. rest s j \<noteq> 0"
  shows "sfrac_of (zfrac_of s) = s"
proof (rule nth_equalityI)
  show l: "length (sfrac_of (zfrac_of s)) = length s"
    using len by (simp add: sfrac_of_def)
  fix i assume "i < length (sfrac_of (zfrac_of s))"
  then have i: "i < length s" using l by simp
  show "sfrac_of (zfrac_of s) ! i = s ! i"
  proof (cases "i < length s - 1")
    case True
    then have "sfrac_of (zfrac_of s) ! i = stick (zfrac_of s) i"
      by (simp add: sfrac_of_def nth_append)
    also have "\<dots> = prod_list (take i (zfrac_of s)) * (1 - zfrac_of s ! i)"
      by (simp add: stick_def)
    also have "prod_list (take i (zfrac_of s)) = rest s i"
      using True nz by (intro prod_zfrac_of) simp_all
    also have "zfrac_of s ! i = 1 - s ! i / rest s i"
      using True by (rule nth_zfrac_of)
    also have "rest s i * (1 - (1 - s ! i / rest s i)) = s ! i"
      using True nz by simp
    finally show ?thesis .
  next
    case False
    with i have ie: "i = length s - 1" by arith
    then have "sfrac_of (zfrac_of s) ! i = prod_list (zfrac_of s)"
      by (simp add: sfrac_of_def nth_append)
    also have "\<dots> = prod_list (take (length s - 1) (zfrac_of s))" by simp
    also have "\<dots> = rest s (length s - 1)"
      using nz by (intro prod_zfrac_of) simp_all
    also have "\<dots> = sum_list (drop (length s - 1) s)" using sum by (rule rest_tail)
    also have "drop (length s - 1) s = [s ! (length s - 1)]"
      using len Cons_nth_drop_Suc [of "length s - 1" s] by simp
    finally show ?thesis using ie by simp
  qed
qed

lemma project_then_ratio:
  "length S = length W \<Longrightarrow> \<forall>w\<in>set W. w \<noteq> 0 \<Longrightarrow>
     map2 (/) (map2 (\<lambda>s w. s * w / C) S W) W = map (\<lambda>s. s / (C::real)) S"
  by (induction S W rule: list_induct2) simp_all

lemma sum_projected:
  "sum_list (map2 (\<lambda>s w. s * w / C) S W) = sum_list (map2 (*) S W) / (C::real)"
  by (induction S W rule: list_induct2') (simp_all add: add_divide_distrib)

text \<open>
  The round trip in exact arithmetic. Let \<open>S\<close> be a simplex vector of length \<open>N \<ge> 2\<close>
  (entries \<open>\<ge> 0\<close>, sum 1) whose last two entries are not both zero, and \<open>W\<close> positive
  bin widths. The masses \<open>M\<^sub>i = S\<^sub>i W\<^sub>i / \<Sum> S\<^sub>j W\<^sub>j\<close> have total 1; \<open>masses_to_zfrac\<close> on
  them (with bins of widths \<open>W\<close>) returns total mass 1 and z-fractions on which
  \<open>zfrac_to_sfrac\<close> returns \<open>S\<close>. Every step divides by a remainder of the stick that
  is non-zero here; the statement does not bound what rounding does when such a
  remainder is small.
\<close>

lemma round_trip_exact:
  assumes len: "2 \<le> length S" "length W = length S"
    and S: "\<forall>s\<in>set S. 0 \<le> s" "sum_list S = 1"
    and W: "\<forall>w\<in>set W. 0 < w"
    and tpb: "time_per_bin agebins = map Fin W"
    and tail: "0 < S ! (length S - 2) + S ! (length S - 1)"
  shows "\<exists>z. masses_to_zfrac
                (map Fin (map2 (\<lambda>s w. s * w / sum_list (map2 (*) S W)) S W)) agebins extras
              = Inr (Fin 1, z)
            \<and> zfrac_to_sfrac z extras' = Inr (map Fin S)"
proof -
  define C where "C = sum_list (map2 (*) S W)"
  define ms where "ms = map2 (\<lambda>s w. s * w / C) S W"
  have Cpos: "0 < C"
    using weighted_sum_pos [of S W] len S W by (simp add: C_def)
  have Wnz: "\<forall>w\<in>set W. w \<noteq> 0" using W by auto
  have q: "map2 (/) ms W = map (\<lambda>s. s / C) S"
    unfolding ms_def using len(2) Wnz by (intro project_then_ratio) simp_all
  have sumq: "sum_list (map2 (/) ms W) = 1 / C"
    by (simp add: q sum_list_divide S(2))
  have sumq': "sum_list (map (\<lambda>s. s / C) S) = 1 / C"
    by (simp add: sum_list_divide S(2))
  have "map (\<lambda>x. x / (1 / C)) (map (\<lambda>s. s / C) S) = S"
    using Cpos by (simp add: o_def)
  then have norm: "S = map (\<lambda>x. x / sum_list (map2 (/) ms W)) (map2 (/) ms W)"
    by (simp only: q sumq')
  have summs: "sum_list ms = 1"
    unfolding ms_def sum_projected using Cpos by (simp add: C_def)
  have lenms: "length ms = length W" "2 \<le> length ms"
    using len by (simp_all add: ms_def)
  have cnz: "sum_list (map2 (/) ms W) \<noteq> 0" using Cpos by (simp add: sumq)
  have nz: "\<forall>j < length S - 1. rest S j \<noteq> 0"
    using rest_pos [OF len(1) S tail] by fastforce
  have loop: "fold (\<lambda>i z. z[i := fsub (Fin 1) (fdiv (map Fin S ! i) (fprod (take i z)))])
           [1..<length S - 1]
           ((replicate (length S - 1) (Fin 0))[0 := fsub (Fin 1) (map Fin S ! 0)])
         = map Fin (zfrac_of S)"
    using zfrac_loop [of S "length S - 1"] len(1) nz by simp
  have inv: "masses_to_zfrac (map Fin ms) agebins extras = Inr (Fin 1, map Fin (zfrac_of S))"
    using masses_to_zfrac_Fin [OF tpb lenms W cnz norm, of extras]
    unfolding loop summs .
  have "zfrac_of S \<noteq> []" using len(1) by (simp add: zfrac_of_def)
  then have "zfrac_to_sfrac (map Fin (zfrac_of S)) extras' = Inr (map Fin (sfrac_of (zfrac_of S)))"
    by (rule zfrac_to_sfrac_Fin)
  also have "sfrac_of (zfrac_of S) = S"
    using len(1) S(2) nz by (rule sfrac_of_zfrac_of)
  finally show ?thesis using inv unfolding ms_def C_def by blast
qed

lemma bins3: "time_per_bin [(Fin 6, Fin 7), (Fin 7, Fin 8), (Fin 8, Fin 9)]
     = map Fin [9000000, 90000000, 900000000]"
  by (simp add: time_per_bin_def)

text \<open>
  The round trip fails for a simplex vector with zero entries: for \<open>S = [1, 0, 0]\<close> and
  widths \<open>[9e6, 9e7, 9e8]\<close> the masses are \<open>[1, 0, 0]\<close>, the inverse divides \<open>0\<close> by the
  prefix product \<open>0\<close> and returns \<open>[0, nan]\<close>, and the forward transform returns
  \<open>[1, nan, nan]\<close>. No step of this run rounds.
\<close>

lemma round_trip_all_in_first_bin:
  "time_per_bin [(Fin 6, Fin 7), (Fin 7, Fin 8), (Fin 8, Fin 9)]
     = [Fin 9000000, Fin 90000000, Fin 900000000]
   \<and> masses_to_zfrac
        [Fin (1 * 9000000 / (1 * 9000000 + 0 * 90000000 + 0 * 900000000)),
         Fin (0 * 90000000 / (1 * 9000000 + 0 * 90000000 + 0 * 900000000)),
         Fin (0 * 900000000 / (1 * 9000000 + 0 * 90000000 + 0 * 900000000))]
        [(Fin 6, Fin 7), (Fin 7, Fin 8), (Fin 8, Fin 9)] (Map.empty :: string \<rightharpoonup> unit)
      = Inr (Fin 1, [Fin 0, NaN])
   \<and> zfrac_to_sfrac [Fin 0, NaN] (Map.empty :: string \<rightharpoonup> unit) = Inr [Fin 1, NaN, NaN]
   \<and> [Fin 1, NaN, NaN] \<noteq> [Fin 1, Fin 0, Fin 0]"
  by (simp add: masses_to_zfrac_def zfrac_to_sfrac_def time_per_bin_def np_broadcast_def
      fsum_def fprod_def Let_def upt_rec fsub_def)

text \<open>
  The inverse raises no error on a zero prefix product: for all the mass in the first
  of three bins the sfr fractions are \<open>[1, 0, 0]\<close>, the first z-fraction is \<open>0\<close>, the
  second is \<open>1 - 0 / 0\<close>, and the call returns the total mass and the vector \<open>[0, nan]\<close>.
\<close>

theorem masses_to_zfrac_unguarded_counterexample:
  "masses_to_zfrac [Fin 5, Fin 0, Fin 0]
      [(Fin 6, Fin 7), (Fin 7, Fin 8), (Fin 8, Fin 9)] (Map.empty :: string \<rightharpoonup> unit)
     = Inr (Fin 5, [Fin 0, NaN])"
  by (simp add: masses_to_zfrac_def time_per_bin_def np_broadcast_def
      fsum_def fprod_def Let_def upt_rec fsub_def)

text \<open>
  A first bin without mass is not such an input: its sfr fraction is \<open>0\<close>, the first
  z-fraction is \<open>1\<close> and so is the prefix product that the next step divides by.
\<close>

lemma masses_to_zfrac_empty_first_bin:
  "\<exists>z1. masses_to_zfrac [Fin 0, Fin 1, Fin 1]
      [(Fin 6, Fin 7), (Fin 7, Fin 8), (Fin 8, Fin 9)] extras = Inr (Fin 2, [Fin 1, Fin z1])"
proof -
  have "masses_to_zfrac [Fin 0, Fin 1, Fin 1]
      [(Fin 6, Fin 7), (Fin 7, Fin 8), (Fin 8, Fin 9)] extras = Inr (Fin 2, [Fin 1, Fin (1 / 11)])"
    by (simp add: masses_to_zfrac_def time_per_bin_def np_broadcast_def
        fsum_def fprod_def Let_def upt_rec fsub_def)
  then show ?thesis by blast
qed

lemma sum_list_zeros: "\<forall>x\<in>set xs. x = (0::real) \<Longrightarrow> sum_list xs = 0"
  by (induction xs) auto

lemma nonneg_sum_zero: "\<forall>x\<in>set xs. 0 \<le> (x::real) \<Longrightarrow> sum_list xs = 0 \<Longrightarrow> \<forall>x\<in>set xs. x = 0"
  by (simp add: sum_list_nonneg_eq_0_iff)

lemma ratio_zero_tail:
  assumes "\<forall>m\<in>set ms'. m = (0::real)"
  shows "sum_list (map (\<lambda>x. x / c) (map2 (/) ms' ws')) = 0"
  by (rule sum_list_zeros) (use assms in \<open>auto dest: set_zip_leftD\<close>)

lemma ratio_nonneg:
  assumes "\<forall>m\<in>set ms. 0 \<le> (m::real)" "\<forall>w\<in>set ws. 0 < w" "0 < c"
  shows "\<forall>x\<in>set (map (\<lambda>x. x / c) (map2 (/) ms ws)). 0 \<le> x"
proof -
  have "0 \<le> m / w / c" if "(m, w) \<in> set (zip ms ws)" for m w
  proof -
    from that have "m \<in> set ms" "w \<in> set ws"
      by (auto dest: set_zip_leftD set_zip_rightD)
    then have "0 \<le> m" "0 < w" using assms by auto
    then show ?thesis using assms(3) by simp
  qed
  then show ?thesis by auto
qed

text \<open>
  Claim C5 (as amended). \<open>masses_to_zfrac\<close> guards no division. For a mass vector with
  all the mass in the first bin, \<open>[m, 0, ..., 0]\<close> with \<open>m > 0\<close>, over \<open>N \<ge> 3\<close> bins of
  positive width (an input whose reconstructed z-fractions have a zero prefix product),
  it raises nothing: it returns the total mass \<open>m\<close> and a z-fraction vector of length
  \<open>N - 1\<close> whose entries at the indices \<open>1, ..., N - 2\<close> are \<open>nan\<close>.
\<close>

theorem masses_to_zfrac_degenerate:
  assumes m: "0 < m" and k: "2 \<le> k"
    and len: "length ws = Suc k"
    and ws: "\<forall>w\<in>set ws. 0 < w"
    and tpb: "time_per_bin agebins = map Fin ws"
  shows "\<exists>z. masses_to_zfrac (map Fin (m # replicate k 0)) agebins extras = Inr (Fin m, z)
            \<and> length z = k
            \<and> (\<forall>j. 1 \<le> j \<and> j < k \<longrightarrow> z ! j = NaN)"
proof -
  define ms where "ms = m # replicate k (0::real)"
  define c where "c = sum_list (map2 (/) ms ws)"
  define s where "s = map (\<lambda>x. x / c) (map2 (/) ms ws)"
  have lms: "length ms = Suc k" by (simp add: ms_def)
  have msnn: "\<forall>x\<in>set ms. 0 \<le> x" using m by (auto simp: ms_def)
  have mssum: "sum_list ms = m" by (simp add: ms_def sum_list_zeros)
  have cpos: "0 < c"
    unfolding c_def using len lms msnn ws m mssum by (intro ratio_sum_pos) simp_all
  have ls: "length s = Suc k" using len lms by (simp add: s_def)
  have snn: "\<forall>x\<in>set s. 0 \<le> x"
    unfolding s_def using msnn ws cpos by (rule ratio_nonneg)
  have "sum_list s = sum_list (map2 (/) ms ws) / c"
    unfolding s_def by (rule sum_list_divide)
  then have ssum: "sum_list s = 1"
    using cpos by (simp add: c_def [symmetric])
  have "\<forall>x\<in>set (drop 1 ms). x = 0" by (simp add: ms_def)
  then have "sum_list (map (\<lambda>x. x / c) (map2 (/) (drop 1 ms) (drop 1 ws))) = 0"
    by (rule ratio_zero_tail)
  then have tail: "sum_list (drop 1 s) = 0" by (simp add: s_def drop_map drop_zip)
  have r1: "rest s 1 = 0" using tail ssum by (simp add: rest_tail)
  have nz: "\<forall>j<1. rest s j \<noteq> 0" by simp
  have "\<forall>x\<in>set (drop 1 s). x = 0"
    using snn tail by (intro nonneg_sum_zero) (meson in_set_dropD)
  moreover have "s ! 1 \<in> set (drop 1 s)"
  proof -
    have "1 < length s" using ls k by simp
    then have "drop 1 s = s ! 1 # drop (Suc 1) s" by (rule Cons_nth_drop_Suc [symmetric])
    then show ?thesis by (metis list.set_intros(1))
  qed
  ultimately have s1: "s ! 1 = 0" by blast
  let ?z = "map Fin (take 1 (zfrac_of s)) @ replicate (length s - 1 - 1) NaN"
  have loop: "fold (\<lambda>i z. z[i := fsub (Fin 1) (fdiv (map Fin s ! i) (fprod (take i z)))])
           [1..<length s - 1]
           ((replicate (length s - 1) (Fin 0))[0 := fsub (Fin 1) (map Fin s ! 0)]) = ?z"
    using ls k nz r1 s1 by (intro zfrac_loop) simp_all
  have cnz: "sum_list (map2 (/) ms ws) \<noteq> 0" using cpos by (simp add: c_def)
  have sdef: "s = map (\<lambda>x. x / sum_list (map2 (/) ms ws)) (map2 (/) ms ws)"
    by (simp add: s_def c_def)
  have l2: "length ms = length ws" "2 \<le> length ms" using len lms k by simp_all
  have run: "masses_to_zfrac (map Fin ms) agebins extras = Inr (Fin m, ?z)"
    using masses_to_zfrac_Fin [OF tpb l2 ws cnz sdef, of extras] unfolding loop mssum .
  have lz: "length ?z = k" using ls k by simp
  have nan: "?z ! j = NaN" if "1 \<le> j" "j < k" for j
  proof -
    have "j - 1 < length s - 1 - 1" using that ls by arith
    moreover have "length (map Fin (take 1 (zfrac_of s))) = 1" using ls k by simp
    ultimately show ?thesis using that(1) by (simp add: nth_append)
  qed
  show ?thesis using run lz nan unfolding ms_def by blast
qed

theorem masses_to_zfrac_degenerate_witness:
  "\<exists>z. masses_to_zfrac (map Fin (5 # replicate 2 0))
          [(Fin 6, Fin 7), (Fin 7, Fin 8), (Fin 8, Fin 9)] (Map.empty :: string \<rightharpoonup> unit)
        = Inr (Fin 5, z)
      \<and> length z = 2 \<and> z ! 1 = NaN"
  using masses_to_zfrac_degenerate [of 5 2 "[9000000, 90000000, 900000000]"
      "[(Fin 6, Fin 7), (Fin 7, Fin 8), (Fin 8, Fin 9)]" Map.empty] bins3
  by auto

section \<open>Mass conservation\<close>

lemma sfrac_block_Fin:
  assumes "zs \<noteq> []"
  shows "(fold (\<lambda>i s. s[i := fmul (fprod (take i (map Fin zs))) (fsub (Fin 1) (map Fin zs ! i))])
            [1..<length zs]
            ((replicate (length zs + 1) (Fin 0))[0 := fsub (Fin 1) (map Fin zs ! 0)]))
          [length zs := fsub (Fin 1) (fsum (butlast
            (fold (\<lambda>i s. s[i := fmul (fprod (take i (map Fin zs))) (fsub (Fin 1) (map Fin zs ! i))])
              [1..<length zs]
              ((replicate (length zs + 1) (Fin 0))[0 := fsub (Fin 1) (map Fin zs ! 0)]))))]
         = map Fin (sfrac_of zs)"
  unfolding sfrac_loop_Fin [OF assms]
  by (simp add: update_last sfrac_of_def sum_stick fsum_Fin_map comp_def)

lemma inj_Fin_map: "map Fin xs = map Fin ys \<Longrightarrow> xs = ys"
  by (simp add: inj_def)

lemma zfrac_to_masses_Fin:
  assumes zs: "zs \<noteq> []" and len: "length ws = length zs + 1"
    and tpb: "time_per_bin agebins = map Fin ws"
    and c: "sum_list (map2 (*) (sfrac_of zs) ws) \<noteq> 0"
  shows "zfrac_to_masses (Fin m) (map Fin zs) agebins extras =
           Inr (map Fin (map (\<lambda>x. m * (x / sum_list (map2 (*) (sfrac_of zs) ws)))
                  (map2 (*) (sfrac_of zs) ws)))"
proof -
  define p where "p = map2 (*) (sfrac_of zs) ws"
  have l: "length (sfrac_of zs) = length ws" using len by (simp add: sfrac_of_def)
  have 1: "np_broadcast fmul (map Fin (sfrac_of zs)) (map Fin ws) = Inr (map Fin p)"
    using l by (simp add: np_broadcast_def map2_fmul_Fin p_def)
  have 2: "fsum (map Fin p) = Fin (sum_list p)" by (rule fsum_Fin)
  have 3: "sum_list p \<noteq> 0" using c by (simp add: p_def)
  have "zfrac_to_masses (Fin m) (map Fin zs) agebins extras =
          Inr (map (fmul (Fin m)) (map (\<lambda>x. fdiv x (fsum (map Fin p))) (map Fin p)))"
    unfolding zfrac_to_masses_def Let_def length_map sfrac_block_Fin [OF zs] tpb 1
    using zs by simp
  also have "map (\<lambda>x. fdiv x (fsum (map Fin p))) (map Fin p) = map Fin (map (\<lambda>x. x / sum_list p) p)"
    unfolding 2 using 3 by simp
  also have "map (fmul (Fin m)) (map Fin (map (\<lambda>x. x / sum_list p) p))
             = map Fin (map (\<lambda>x. m * (x / sum_list p)) p)"
    by simp
  finally show ?thesis by (simp add: p_def)
qed

lemma sum_scaled: "sum_list (map (\<lambda>x. m * (x / c)) p) = (m::real) * (sum_list p / c)"
  by (induction p) (simp_all add: algebra_simps add_divide_distrib)

text \<open>
  Mass conservation in exact arithmetic. For a positive total mass, a non-empty finite
  z-fraction vector and age bins of matching length with positive widths: when the sum
  of the sfr fractions weighted by the bin widths is not zero, or when every z-fraction
  lies strictly between 0 and 1 (the weighted sum is then positive), the masses are
  finite, one per bin, and sum to the total mass; when every z-fraction lies strictly
  between 0 and 1, every mass is non-negative. The statement does not bound what
  rounding does: in binary64 the last sfr fraction is a rounded difference and the
  normalisation divides by a rounded sum.
\<close>

lemma zfrac_to_masses_total_exact:
  assumes zs: "zs \<noteq> []" and len: "length ws = length zs + 1"
    and ws: "\<forall>w\<in>set ws. 0 < w"
    and tpb: "time_per_bin agebins = map Fin ws"
    and m: "0 < m"
    and sf: "zfrac_to_sfrac (map Fin zs) extras = Inr (map Fin ss)"
    and ok: "sum_list (map2 (*) ss ws) \<noteq> 0 \<or> (\<forall>z\<in>set zs. 0 < z \<and> z < 1)"
  shows "\<exists>masses. zfrac_to_masses (Fin m) (map Fin zs) agebins extras = Inr (map Fin masses)
            \<and> length masses = length ws
            \<and> sum_list masses = m
            \<and> ((\<forall>z\<in>set zs. 0 < z \<and> z < 1) \<longrightarrow> (\<forall>x\<in>set masses. 0 \<le> x))"
proof -
  have ss: "ss = sfrac_of zs"
    using sf zfrac_to_sfrac_Fin [OF zs, of extras] by (simp add: inj_Fin_map)
  define c where "c = sum_list (map2 (*) ss ws)"
  define masses where "masses = map (\<lambda>x. m * (x / c)) (map2 (*) ss ws)"
  have l: "length ss = length ws" using len by (simp add: ss sfrac_of_def)
  have pos: "0 < c" if unit: "\<forall>z\<in>set zs. 0 < z \<and> z < 1"
  proof -
    have "\<forall>s\<in>set ss. 0 \<le> s" using sfrac_of_unit_interval [OF unit] by (simp add: ss)
    moreover have "0 < sum_list ss" by (simp add: ss sum_sfrac_of)
    ultimately show ?thesis
      using weighted_sum_pos [of ss ws] l ws by (simp add: c_def)
  qed
  have cnz: "c \<noteq> 0" using ok pos by (auto simp: c_def)
  have run: "zfrac_to_masses (Fin m) (map Fin zs) agebins extras = Inr (map Fin masses)"
    using zfrac_to_masses_Fin [OF zs len tpb, of m extras] cnz
    by (simp add: masses_def c_def ss)
  have lm: "length masses = length ws" using l by (simp add: masses_def)
  have "sum_list masses = m * (c / c)"
    unfolding masses_def c_def by (rule sum_scaled)
  then have sm: "sum_list masses = m" using cnz by simp
  have nn: "\<forall>x\<in>set masses. 0 \<le> x" if unit: "\<forall>z\<in>set zs. 0 < z \<and> z < 1"
  proof
    fix x assume "x \<in> set masses"
    then obtain s w where sw: "(s, w) \<in> set (zip ss ws)" and x: "x = m * (s * w / c)"
      by (auto simp: masses_def)
    from sw have "s \<in> set ss" "w \<in> set ws"
      by (auto dest: set_zip_leftD set_zip_rightD)
    then have "0 \<le> s" "0 < w"
      using sfrac_of_unit_interval [OF unit] ws by (auto simp: ss)
    then show "0 \<le> x" using m pos [OF unit] by (simp add: x)
  qed
  show ?thesis using run lm sm nn by blast
qed

text \<open>
  The normalisation is unguarded. For \<open>z_fraction = [11]\<close> and the bins \<open>[[0,2],[1,2]]\<close>
  (widths 99 and 90) the sfr fractions are \<open>[-10, 11]\<close>, the weighted sum is
  \<open>-990 + 990 = 0\<close>, and the masses are \<open>[-inf, inf]\<close>, whose sum is \<open>nan\<close>. No step of
  this run rounds.
\<close>

lemma zfrac_to_masses_cancellation:
  "time_per_bin [(Fin 0, Fin 2), (Fin 1, Fin 2)] = [Fin 99, Fin 90]
   \<and> zfrac_to_masses (Fin 100) [Fin 11] [(Fin 0, Fin 2), (Fin 1, Fin 2)]
        (Map.empty :: string \<rightharpoonup> unit) = Inr [NInf, PInf]
   \<and> fsum [NInf, PInf] = NaN"
  by (simp add: zfrac_to_masses_def time_per_bin_def np_broadcast_def
      fsum_def fprod_def Let_def fsub_def)

end
